theory Spec2Isabelle
  imports Main
begin

section \<open>Data model of \<^verbatim>\<open>src/index.ts\<close>\<close>

text \<open>
  The request body of \<^verbatim>\<open>POST /blocks\<close> is read as a \<^verbatim>\<open>Block\<close>. The ledger deals in
  integers: a number of the body is the integer its JSON text writes, an \<open>int\<close>. What
  JavaScript makes of it, a double, is modelled where the handler does arithmetic on it,
  in the sums of the conservation check.

  The declared type \<^verbatim>\<open>Input\<close> has the fields \<^verbatim>\<open>txId\<close> and \<^verbatim>\<open>index\<close> only, yet the handlers
  read \<^verbatim>\<open>input.value\<close> and \<^verbatim>\<open>input.address\<close>. Nothing checks the body, so both fields are
  optional in the model: \<open>None\<close> is JavaScript's \<^verbatim>\<open>undefined\<close>.
\<close>

record Output =
  out_address :: string
  out_value :: int

record Input =
  txId :: string
  index :: int
  in_address :: "string option"
  in_value :: "int option"

record Transaction =
  tx_id :: string
  inputs :: "Input list"
  outputs :: "Output list"

record Block =
  block_id :: string
  height :: int
  transactions :: "Transaction list"

subsection \<open>Replies and exceptions\<close>

text \<open>
  A handler either sends a reply (a status code, 200 unless \<^verbatim>\<open>reply.status\<close> sets it, and
  a JSON body with one field) or throws. The four rejections carry the names the
  specification gives them.
\<close>

datatype body = Status string | Error string | Balance int

datatype reply = Reply nat body

datatype exn = StoreFailure | UniqueViolation | NotNullViolation | SyntaxError

definition InvalidHeight :: reply where
  "InvalidHeight = Reply 400 (Error ''Invalid block height'')"

definition UnbalancedTransaction :: reply where
  "UnbalancedTransaction = Reply 400 (Error ''Input and output sums do not match'')"

definition InvalidBlockId :: reply where
  "InvalidBlockId = Reply 400 (Error ''Invalid block ID'')"

definition AddressNotFound :: reply where
  "AddressNotFound = Reply 404 (Error ''Address not found'')"

section \<open>Validation\<close>

subsection \<open>Conservation: the two \<^verbatim>\<open>reduce\<close> sums and \<^verbatim>\<open>!==\<close>\<close>

text \<open>
  A JavaScript number is an IEEE-754 double. The numbers the sums meet are the doubles of
  integer value, the two infinities and \<^verbatim>\<open>NaN\<close>. \<open>nearest_double n\<close> is the double that
  stands for the integer \<open>n\<close>: \<open>n\<close> itself up to \<open>2^53\<close> in magnitude, beyond that the
  nearest integer with a significand of 53 bits, a tie going to the even significand, and
  an infinity from \<open>2^1024 - 2^970\<close> on.
\<close>

datatype jsnum = Num int | PosInfinity | NegInfinity | NaN

function bit_length :: "int \<Rightarrow> nat" where
  "bit_length n = (if n \<le> 0 then 0 else Suc (bit_length (n div 2)))"
  by pat_completeness auto
termination
  by (relation "measure nat") auto

declare bit_length.simps [simp del]

definition nearest_double :: "int \<Rightarrow> jsnum" where
  "nearest_double n =
     (let m = \<bar>n\<bar>
      in if m \<le> 2 ^ 53 then Num n
         else
           (let e = bit_length m - 53;
                q = m div 2 ^ e;
                r = m mod 2 ^ e;
                q' = (if 2 ^ e < 2 * r \<or> (2 * r = 2 ^ e \<and> odd q) then q + 1 else q);
                v = q' * 2 ^ e
            in if 2 ^ 1024 \<le> v then (if n < 0 then NegInfinity else PosInfinity)
               else Num (if n < 0 then - v else v)))"

text \<open>
  The operator \<^verbatim>\<open>+\<close> on two numbers: the exact sum of two finite doubles, rounded; \<^verbatim>\<open>NaN\<close>
  with \<^verbatim>\<open>NaN\<close> and for the two infinities of opposite sign; otherwise the infinity.
\<close>

fun js_plus :: "jsnum \<Rightarrow> jsnum \<Rightarrow> jsnum" where
  "js_plus (Num a) (Num b) = nearest_double (a + b)"
| "js_plus NaN y = NaN"
| "js_plus x NaN = NaN"
| "js_plus PosInfinity NegInfinity = NaN"
| "js_plus NegInfinity PosInfinity = NaN"
| "js_plus PosInfinity y = PosInfinity"
| "js_plus x PosInfinity = PosInfinity"
| "js_plus NegInfinity y = NegInfinity"
| "js_plus x NegInfinity = NegInfinity"

text \<open>
  \<^verbatim>\<open>sum + input.value\<close>: an \<^verbatim>\<open>undefined\<close> field makes the sum \<^verbatim>\<open>NaN\<close>, a number is added as the
  double the body's text was read as. \<^verbatim>\<open>!==\<close> on two numbers: \<^verbatim>\<open>NaN\<close> differs from
  everything, itself included.
\<close>

definition js_add :: "jsnum \<Rightarrow> int option \<Rightarrow> jsnum" where
  "js_add acc v = (case v of None \<Rightarrow> NaN | Some n \<Rightarrow> js_plus acc (nearest_double n))"

definition js_neq :: "jsnum \<Rightarrow> jsnum \<Rightarrow> bool" where
  "js_neq x y = (x = NaN \<or> y = NaN \<or> x \<noteq> y)"

definition inputSum :: "Transaction \<Rightarrow> jsnum" where
  "inputSum tx = foldl (\<lambda>sum input. js_add sum (in_value input)) (Num 0) (inputs tx)"

definition outputSum :: "Transaction \<Rightarrow> jsnum" where
  "outputSum tx = foldl (\<lambda>sum output. js_add sum (Some (out_value output))) (Num 0) (outputs tx)"

text \<open>The loop over \<^verbatim>\<open>block.transactions\<close>: it returns at the first transaction whose sums differ.\<close>

fun conservation :: "Transaction list \<Rightarrow> reply option" where
  "conservation [] = None"
| "conservation (tx # txs) =
     (if js_neq (inputSum tx) (outputSum tx) then Some UnbalancedTransaction
      else conservation txs)"

subsection \<open>Identity: the running digest\<close>

text \<open>
  \<^verbatim>\<open>Number.prototype.toString\<close> on an integer: its decimal digits, with a leading minus
  sign for a negative one.
\<close>

definition digit :: "nat \<Rightarrow> char" where
  "digit d = ''0123456789'' ! d"

fun digits :: "nat \<Rightarrow> string" where
  "digits n = (if n < 10 then [digit n] else digits (n div 10) @ [digit (n mod 10)])"

declare digits.simps [simp del]

definition toString :: "int \<Rightarrow> string" where
  "toString i = (if i < 0 then CHR ''-'' # digits (nat (- i)) else digits (nat i))"

text \<open>
  A \<^verbatim>\<open>Hash\<close> object of Node's \<^verbatim>\<open>crypto\<close> module is the data fed to it so far: \<^verbatim>\<open>update\<close>
  appends, \<^verbatim>\<open>digest('hex')\<close> applies the digest function to what has accumulated. SHA-256
  itself is a parameter \<open>H\<close> of the model, from byte strings to lower-case hexadecimal
  strings.
\<close>

type_synonym hash = string

definition createHash :: hash where
  "createHash = []"

definition update :: "hash \<Rightarrow> string \<Rightarrow> hash" where
  "update h s = h @ s"

definition digest :: "(string \<Rightarrow> string) \<Rightarrow> hash \<Rightarrow> string" where
  "digest H h = H h"

definition calculatedId :: "(string \<Rightarrow> string) \<Rightarrow> Block \<Rightarrow> string" where
  "calculatedId H block =
     digest H (foldl (\<lambda>hash tx. update hash (tx_id tx))
                 (update createHash (toString (height block)))
                 (transactions block))"

section \<open>The store\<close>

text \<open>
  The PostgreSQL database behind \<^verbatim>\<open>pool\<close>, as \<^verbatim>\<open>createTables\<close> declares it: the table
  \<^verbatim>\<open>blocks (id TEXT PRIMARY KEY, height INTEGER NOT NULL, data JSONB NOT NULL)\<close> and the
  table \<^verbatim>\<open>balances (address TEXT PRIMARY KEY, balance INTEGER NOT NULL DEFAULT 0)\<close>, each
  a list of rows. The \<^verbatim>\<open>data\<close> column holds \<^verbatim>\<open>JSON.stringify(block)\<close>, a document that
  determines the block, so the model keeps the block.

  The handlers run one after the other on one connection. \<open>saved\<close> is the snapshot an
  open transaction returns to on \<^verbatim>\<open>ROLLBACK\<close>; \<open>faults\<close> is the schedule of store
  failures the model does not derive from the tables (a lost connection, an INTEGER out
  of range): every \<^verbatim>\<open>pool.query\<close> takes the next flag, and a flagged statement has no
  effect and throws.
\<close>

record block_row =
  row_id :: string
  row_height :: int
  row_data :: Block

type_synonym balance_row = "string \<times> int"

record store =
  blocks :: "block_row list"
  balances :: "balance_row list"
  saved :: "(block_row list \<times> balance_row list) option"
  faults :: "bool list"

type_synonym 'a statement = "store \<Rightarrow> exn + 'a \<times> store"

definition pool_query :: "'a statement \<Rightarrow> store \<Rightarrow> (exn + 'a) \<times> store" where
  "pool_query stmt s =
     (case faults s of
        True # fs \<Rightarrow> (Inl StoreFailure, s\<lparr>faults := fs\<rparr>)
      | _ \<Rightarrow>
          (let s0 = s\<lparr>faults := tl (faults s)\<rparr>
           in case stmt s0 of
                Inl e \<Rightarrow> (Inl e, s0)
              | Inr (a, s1) \<Rightarrow> (Inr a, s1)))"

subsection \<open>The statements the handlers send\<close>

text \<open>\<^verbatim>\<open>SELECT MAX(height) as height FROM blocks\<close>: one row, \<^verbatim>\<open>NULL\<close> on an empty table.\<close>

definition max_height :: "block_row list \<Rightarrow> int option" where
  "max_height rows =
     (case rows of [] \<Rightarrow> None
      | r # rs \<Rightarrow> Some (fold max (map row_height rs) (row_height r)))"

definition select_max_height :: "int option statement" where
  "select_max_height s = Inr (max_height (blocks s), s)"

text \<open>\<^verbatim>\<open>BEGIN\<close>, \<^verbatim>\<open>COMMIT\<close> and \<^verbatim>\<open>ROLLBACK\<close>.\<close>

definition begin_transaction :: "unit statement" where
  "begin_transaction s =
     Inr ((), case saved s of None \<Rightarrow> s\<lparr>saved := Some (blocks s, balances s)\<rparr> | Some t \<Rightarrow> s)"

definition commit :: "unit statement" where
  "commit s = Inr ((), s\<lparr>saved := None\<rparr>)"

definition abort :: "store \<Rightarrow> store" where
  "abort s =
     (case saved s of None \<Rightarrow> s
      | Some (bl, ba) \<Rightarrow> s\<lparr>blocks := bl, balances := ba, saved := None\<rparr>)"

text \<open>
  What is not committed never becomes visible: a \<^verbatim>\<open>ROLLBACK\<close> that cannot be delivered
  still throws, and the server discards the open transaction with the connection.
\<close>

definition pool_query_rollback :: "store \<Rightarrow> (exn + unit) \<times> store" where
  "pool_query_rollback s =
     (case faults s of
        True # fs \<Rightarrow> (Inl StoreFailure, abort (s\<lparr>faults := fs\<rparr>))
      | _ \<Rightarrow> (Inr (), abort (s\<lparr>faults := tl (faults s)\<rparr>)))"

text \<open>
  \<^verbatim>\<open>UPDATE balances SET balance = balance - $1 WHERE address = $2\<close> and its twin with
  \<^verbatim>\<open>+\<close>. An \<^verbatim>\<open>undefined\<close> parameter is sent as \<^verbatim>\<open>NULL\<close>: no address equals \<^verbatim>\<open>NULL\<close>, and a
  \<^verbatim>\<open>NULL\<close> amount makes the new balance \<^verbatim>\<open>NULL\<close>, which the column refuses. A statement
  that matches no row changes nothing and succeeds.
\<close>

definition update_balances ::
  "(int \<Rightarrow> int \<Rightarrow> int) \<Rightarrow> int option \<Rightarrow> string option \<Rightarrow> unit statement" where
  "update_balances f v a s =
     (case a of
        None \<Rightarrow> Inr ((), s)
      | Some addr \<Rightarrow>
          if addr \<notin> set (map fst (balances s)) then Inr ((), s)
          else (case v of
                  None \<Rightarrow> Inl NotNullViolation
                | Some d \<Rightarrow>
                    Inr ((), s\<lparr>balances :=
                      map (\<lambda>(k, b). if k = addr then (k, f b d) else (k, b)) (balances s)\<rparr>)))"

definition update_balance_minus :: "int option \<Rightarrow> string option \<Rightarrow> unit statement" where
  "update_balance_minus = update_balances (\<lambda>b d. b - d)"

definition update_balance_plus :: "int option \<Rightarrow> string option \<Rightarrow> unit statement" where
  "update_balance_plus = update_balances (\<lambda>b d. b + d)"

text \<open>\<^verbatim>\<open>INSERT INTO blocks (id, height, data) VALUES ($1, $2, $3)\<close>: \<^verbatim>\<open>id\<close> is the primary key.\<close>

definition insert_block :: "Block \<Rightarrow> unit statement" where
  "insert_block block s =
     (if block_id block \<in> set (map row_id (blocks s)) then Inl UniqueViolation
      else Inr ((), s\<lparr>blocks := blocks s @
             [\<lparr>row_id = block_id block, row_height = height block, row_data = block\<rparr>]\<rparr>))"

text \<open>\<^verbatim>\<open>SELECT balance FROM balances WHERE address = $1\<close>.\<close>

definition select_balance :: "string \<Rightarrow> int list statement" where
  "select_balance a s = Inr (map snd (filter (\<lambda>r. fst r = a) (balances s)), s)"

text \<open>\<^verbatim>\<open>DELETE FROM blocks WHERE height > $1\<close>, \<^verbatim>\<open>TRUNCATE balances\<close> and
  \<^verbatim>\<open>SELECT data FROM blocks ORDER BY height\<close>.\<close>

definition delete_blocks_above :: "int \<Rightarrow> unit statement" where
  "delete_blocks_above h s = Inr ((), s\<lparr>blocks := filter (\<lambda>r. \<not> row_height r > h) (blocks s)\<rparr>)"

definition truncate_balances :: "unit statement" where
  "truncate_balances s = Inr ((), s\<lparr>balances := []\<rparr>)"

definition select_data :: "Block list statement" where
  "select_data s = Inr (map row_data (sort_key row_height (blocks s)), s)"

section \<open>The handlers\<close>

subsection \<open>Applying the deltas of a block\<close>

text \<open>The two inner loops and the loop over the transactions, as both handlers have them.\<close>

fun apply_inputs :: "Input list \<Rightarrow> store \<Rightarrow> (exn + unit) \<times> store" where
  "apply_inputs [] s = (Inr (), s)"
| "apply_inputs (input # rest) s =
     (case pool_query (update_balance_minus (in_value input) (in_address input)) s of
        (Inl e, s') \<Rightarrow> (Inl e, s')
      | (Inr _, s') \<Rightarrow> apply_inputs rest s')"

fun apply_outputs :: "Output list \<Rightarrow> store \<Rightarrow> (exn + unit) \<times> store" where
  "apply_outputs [] s = (Inr (), s)"
| "apply_outputs (output # rest) s =
     (case pool_query (update_balance_plus (Some (out_value output)) (Some (out_address output))) s of
        (Inl e, s') \<Rightarrow> (Inl e, s')
      | (Inr _, s') \<Rightarrow> apply_outputs rest s')"

fun apply_transactions :: "Transaction list \<Rightarrow> store \<Rightarrow> (exn + unit) \<times> store" where
  "apply_transactions [] s = (Inr (), s)"
| "apply_transactions (tx # rest) s =
     (case apply_inputs (inputs tx) s of
        (Inl e, s') \<Rightarrow> (Inl e, s')
      | (Inr _, s') \<Rightarrow>
          (case apply_outputs (outputs tx) s' of
             (Inl e, s'') \<Rightarrow> (Inl e, s'')
           | (Inr _, s'') \<Rightarrow> apply_transactions rest s''))"

subsection \<open>\<^verbatim>\<open>POST /blocks\<close>\<close>

text \<open>\<^verbatim>\<open>currentHeightRows[0].height || 0\<close>: \<^verbatim>\<open>null\<close> and \<^verbatim>\<open>0\<close> are the falsy heights.\<close>

definition or_zero :: "int option \<Rightarrow> int" where
  "or_zero h = (case h of None \<Rightarrow> 0 | Some n \<Rightarrow> if n = 0 then 0 else n)"

definition currentHeight :: "store \<Rightarrow> int" where
  "currentHeight s = or_zero (max_height (blocks s))"

text \<open>The body of the \<^verbatim>\<open>try\<close>: the deltas, the \<^verbatim>\<open>INSERT\<close> and the \<^verbatim>\<open>COMMIT\<close>.\<close>

definition try_apply :: "Block \<Rightarrow> store \<Rightarrow> (exn + unit) \<times> store" where
  "try_apply block s =
     (case apply_transactions (transactions block) s of
        (Inl e, s1) \<Rightarrow> (Inl e, s1)
      | (Inr _, s1) \<Rightarrow>
          (case pool_query (insert_block block) s1 of
             (Inl e, s2) \<Rightarrow> (Inl e, s2)
           | (Inr _, s2) \<Rightarrow> pool_query commit s2))"

text \<open>The \<^verbatim>\<open>catch\<close>: \<^verbatim>\<open>ROLLBACK\<close>, then the caught error is thrown again.\<close>

definition catch_rollback :: "exn \<Rightarrow> store \<Rightarrow> (exn + reply) \<times> store" where
  "catch_rollback err s =
     (case pool_query_rollback s of
        (Inl e, s') \<Rightarrow> (Inl e, s')
      | (Inr _, s') \<Rightarrow> (Inl err, s'))"

definition post_blocks :: "(string \<Rightarrow> string) \<Rightarrow> Block \<Rightarrow> store \<Rightarrow> (exn + reply) \<times> store" where
  "post_blocks H block s =
     (case pool_query select_max_height s of
        (Inl e, s1) \<Rightarrow> (Inl e, s1)
      | (Inr currentHeightRows, s1) \<Rightarrow>
          if height block \<noteq> or_zero currentHeightRows + 1 then (Inr InvalidHeight, s1)
          else (case conservation (transactions block) of
                  Some r \<Rightarrow> (Inr r, s1)
                | None \<Rightarrow>
                    if block_id block \<noteq> calculatedId H block then (Inr InvalidBlockId, s1)
                    else (case pool_query begin_transaction s1 of
                            (Inl e, s2) \<Rightarrow> (Inl e, s2)
                          | (Inr _, s2) \<Rightarrow>
                              (case try_apply block s2 of
                                 (Inl err, s3) \<Rightarrow> catch_rollback err s3
                               | (Inr _, s3) \<Rightarrow> (Inr (Reply 200 (Status ''Block added'')), s3)))))"

subsection \<open>\<^verbatim>\<open>GET /balance/:address\<close>\<close>

definition get_balance :: "string \<Rightarrow> store \<Rightarrow> (exn + reply) \<times> store" where
  "get_balance address s =
     (case pool_query (select_balance address) s of
        (Inl e, s1) \<Rightarrow> (Inl e, s1)
      | (Inr rows, s1) \<Rightarrow>
          (case rows of
             [] \<Rightarrow> (Inr AddressNotFound, s1)
           | balance # _ \<Rightarrow> (Inr (Reply 200 (Balance balance)), s1)))"

subsection \<open>\<^verbatim>\<open>POST /rollback\<close>\<close>

text \<open>
  \<open>parse d\<close> is the value of \<^verbatim>\<open>JSON.parse(row.data)\<close> on a row whose \<^verbatim>\<open>data\<close> column was
  written as \<^verbatim>\<open>JSON.stringify(d)\<close>, and \<open>None\<close> when it throws \<^verbatim>\<open>SyntaxError\<close>. It is a
  parameter, since the driver decides what \<^verbatim>\<open>row.data\<close> is: \<open>Some\<close> for a driver that hands
  the column over as text, \<open>\<lambda>d. None\<close> for node-postgres, which decodes a JSONB column
  to an object itself, so that \<^verbatim>\<open>JSON.parse\<close> is given the string \<^verbatim>\<open>[object Object]\<close>.
\<close>

fun replay :: "(Block \<Rightarrow> Block option) \<Rightarrow> Block list \<Rightarrow> store \<Rightarrow> (exn + unit) \<times> store" where
  "replay parse [] s = (Inr (), s)"
| "replay parse (d # rest) s =
     (case parse d of
        None \<Rightarrow> (Inl SyntaxError, s)
      | Some block \<Rightarrow>
          (case apply_transactions (transactions block) s of
             (Inl e, s') \<Rightarrow> (Inl e, s')
           | (Inr _, s') \<Rightarrow> replay parse rest s'))"

definition try_rollback :: "(Block \<Rightarrow> Block option) \<Rightarrow> int \<Rightarrow> store \<Rightarrow> (exn + unit) \<times> store" where
  "try_rollback parse h s =
     (case pool_query (delete_blocks_above h) s of
        (Inl e, s1) \<Rightarrow> (Inl e, s1)
      | (Inr _, s1) \<Rightarrow>
          (case pool_query truncate_balances s1 of
             (Inl e, s2) \<Rightarrow> (Inl e, s2)
           | (Inr _, s2) \<Rightarrow>
               (case pool_query select_data s2 of
                  (Inl e, s3) \<Rightarrow> (Inl e, s3)
                | (Inr rows, s3) \<Rightarrow>
                    (case replay parse rows s3 of
                       (Inl e, s4) \<Rightarrow> (Inl e, s4)
                     | (Inr _, s4) \<Rightarrow> pool_query commit s4))))"

definition post_rollback :: "(Block \<Rightarrow> Block option) \<Rightarrow> int \<Rightarrow> store \<Rightarrow> (exn + reply) \<times> store" where
  "post_rollback parse h s =
     (case pool_query begin_transaction s of
        (Inl e, s1) \<Rightarrow> (Inl e, s1)
      | (Inr _, s1) \<Rightarrow>
          (case try_rollback parse h s1 of
             (Inl err, s2) \<Rightarrow> catch_rollback err s2
           | (Inr _, s2) \<Rightarrow> (Inr (Reply 200 (Status ''Rollback completed'')), s2)))"

section \<open>Vocabulary of the properties\<close>

text \<open>
  \<open>flagged s\<close>: the next statement sent to the store fails. \<open>pop s\<close>: the store once a
  statement has taken its flag. \<open>initial fs\<close>: the store as \<^verbatim>\<open>createTables\<close> leaves a fresh
  database, with the fault schedule \<open>fs\<close>.
\<close>

definition flagged :: "store \<Rightarrow> bool" where
  "flagged s = (case faults s of True # fs \<Rightarrow> True | _ \<Rightarrow> False)"

definition pop :: "store \<Rightarrow> store" where
  "pop s = s\<lparr>faults := tl (faults s)\<rparr>"

definition initial :: "bool list \<Rightarrow> store" where
  "initial fs = \<lparr>blocks = [], balances = [], saved = None, faults = fs\<rparr>"

text \<open>\<open>begun s\<close>: the store in which the \<^verbatim>\<open>try\<close> of \<^verbatim>\<open>POST /blocks\<close> starts from \<open>s\<close>, once the
  height query and \<^verbatim>\<open>BEGIN\<close> have taken their flags and \<^verbatim>\<open>BEGIN\<close> has set the snapshot.\<close>

definition begun :: "store \<Rightarrow> store" where
  "begun s = (pop (pop s))\<lparr>saved := Some (blocks s, balances s)\<rparr>"

text \<open>
  The states the three handlers reach from the fresh database, whatever the requests and
  whatever the store failures on the way (each request meets a schedule of its own).
\<close>

inductive reachable :: "(string \<Rightarrow> string) \<Rightarrow> (Block \<Rightarrow> Block option) \<Rightarrow> store \<Rightarrow> bool"
  for H :: "string \<Rightarrow> string" and parse :: "Block \<Rightarrow> Block option" where
  start: "reachable H parse (initial fs)"
| submit: "reachable H parse s \<Longrightarrow> reachable H parse (snd (post_blocks H b (s\<lparr>faults := fs\<rparr>)))"
| query: "reachable H parse s \<Longrightarrow> reachable H parse (snd (get_balance a (s\<lparr>faults := fs\<rparr>)))"
| rollback: "reachable H parse s \<Longrightarrow> reachable H parse (snd (post_rollback parse h (s\<lparr>faults := fs\<rparr>)))"

text \<open>
  The sums of the conservation rule as the specification words them, over integers, for a
  transaction whose inputs all carry a value.
\<close>

definition values_present :: "Transaction \<Rightarrow> bool" where
  "values_present tx = list_all (\<lambda>input. in_value input \<noteq> None) (inputs tx)"

definition input_total :: "Transaction \<Rightarrow> int" where
  "input_total tx = sum_list (map (\<lambda>input. case in_value input of Some v \<Rightarrow> v | None \<Rightarrow> 0) (inputs tx))"

definition output_total :: "Transaction \<Rightarrow> int" where
  "output_total tx = sum_list (map out_value (outputs tx))"

text \<open>
  A transaction within the safe range: the magnitudes of its input values add up to \<open>2^53\<close>
  at most, and so do those of its output values. No sum of such a transaction is rounded.
\<close>

definition input_magnitude :: "Transaction \<Rightarrow> int" where
  "input_magnitude tx =
     sum_list (map (\<lambda>input. case in_value input of Some v \<Rightarrow> \<bar>v\<bar> | None \<Rightarrow> 0) (inputs tx))"

definition output_magnitude :: "Transaction \<Rightarrow> int" where
  "output_magnitude tx = sum_list (map (\<lambda>output. \<bar>out_value output\<bar>) (outputs tx))"

definition within_safe_range :: "Transaction \<Rightarrow> bool" where
  "within_safe_range tx = (input_magnitude tx \<le> 2 ^ 53 \<and> output_magnitude tx \<le> 2 ^ 53)"

text \<open>
  The ledger of the specification: the deltas of a chain of blocks folded over the
  all-zero mapping, inputs subtracting and outputs adding, in the order of application.
\<close>

definition debit :: "(string \<Rightarrow> int) \<Rightarrow> Input \<Rightarrow> (string \<Rightarrow> int)" where
  "debit m input =
     (case (in_address input, in_value input) of
        (Some a, Some v) \<Rightarrow> m(a := m a - v)
      | _ \<Rightarrow> m)"

definition credit :: "(string \<Rightarrow> int) \<Rightarrow> Output \<Rightarrow> (string \<Rightarrow> int)" where
  "credit m output = m(out_address output := m (out_address output) + out_value output)"

definition fold_transaction :: "(string \<Rightarrow> int) \<Rightarrow> Transaction \<Rightarrow> (string \<Rightarrow> int)" where
  "fold_transaction m tx = foldl credit (foldl debit m (inputs tx)) (outputs tx)"

definition fold_deltas :: "Block list \<Rightarrow> (string \<Rightarrow> int)" where
  "fold_deltas chain = foldl (\<lambda>m block. foldl fold_transaction m (transactions block)) (\<lambda>a. 0) chain"

subsection \<open>Example requests\<close>

text \<open>The block of the specification's scenario, which is the block of the test \<^verbatim>\<open>POST /blocks\<close>
  with the id the handler computes.\<close>

definition scenario_block :: "(string \<Rightarrow> string) \<Rightarrow> Block" where
  "scenario_block H =
     \<lparr>block_id = H ''1tx1'', height = 1,
      transactions =
        [\<lparr>tx_id = ''tx1'', inputs = [],
          outputs = [\<lparr>out_address = ''addr1'', out_value = 10\<rparr>]\<rparr>]\<rparr>"

text \<open>
  Three transactions: one that moves 5 from \<^verbatim>\<open>alice\<close> to \<^verbatim>\<open>bob\<close>, one that takes 3 and gives
  4, and one whose input is as the type \<^verbatim>\<open>Input\<close> declares it, without address and value.
  Then a first block that holds the first of them, and one that holds all three.
\<close>

definition tx_balanced :: Transaction where
  "tx_balanced =
     \<lparr>tx_id = ''t1'',
      inputs = [\<lparr>txId = ''t0'', index = 0, in_address = Some ''alice'', in_value = Some 5\<rparr>],
      outputs = [\<lparr>out_address = ''bob'', out_value = 5\<rparr>]\<rparr>"

definition tx_unbalanced :: Transaction where
  "tx_unbalanced =
     \<lparr>tx_id = ''t2'',
      inputs = [\<lparr>txId = ''t1'', index = 0, in_address = Some ''bob'', in_value = Some 3\<rparr>],
      outputs = [\<lparr>out_address = ''carol'', out_value = 4\<rparr>]\<rparr>"

definition tx_declared :: Transaction where
  "tx_declared =
     \<lparr>tx_id = ''t3'',
      inputs = [\<lparr>txId = ''t2'', index = 0, in_address = None, in_value = None\<rparr>],
      outputs = []\<rparr>"

definition transfer_block :: "(string \<Rightarrow> string) \<Rightarrow> Block" where
  "transfer_block H = \<lparr>block_id = H ''1t1'', height = 1, transactions = [tx_balanced]\<rparr>"

definition mixed_block :: Block where
  "mixed_block = \<lparr>block_id = ''x'', height = 1, transactions = [tx_balanced, tx_unbalanced, tx_declared]\<rparr>"

text \<open>
  Two transactions beyond the safe range. The first takes \<open>2^53\<close> and 1 and gives \<open>2^53\<close>;
  the second takes \<open>2^53\<close>, 1 and 1 and gives \<open>2^53 + 2\<close>. Each in a first block of its own,
  with an id that is not the computed one.
\<close>

definition tx_rounded_equal :: Transaction where
  "tx_rounded_equal =
     \<lparr>tx_id = ''t1'',
      inputs = [\<lparr>txId = ''t0'', index = 0, in_address = Some ''alice'', in_value = Some 9007199254740992\<rparr>,
                \<lparr>txId = ''t0'', index = 1, in_address = Some ''alice'', in_value = Some 1\<rparr>],
      outputs = [\<lparr>out_address = ''bob'', out_value = 9007199254740992\<rparr>]\<rparr>"

definition tx_rounded_apart :: Transaction where
  "tx_rounded_apart =
     \<lparr>tx_id = ''t1'',
      inputs = [\<lparr>txId = ''t0'', index = 0, in_address = Some ''alice'', in_value = Some 9007199254740992\<rparr>,
                \<lparr>txId = ''t0'', index = 1, in_address = Some ''alice'', in_value = Some 1\<rparr>,
                \<lparr>txId = ''t0'', index = 2, in_address = Some ''alice'', in_value = Some 1\<rparr>],
      outputs = [\<lparr>out_address = ''bob'', out_value = 9007199254740994\<rparr>]\<rparr>"

definition rounded_equal_block :: Block where
  "rounded_equal_block = \<lparr>block_id = ''x'', height = 1, transactions = [tx_rounded_equal]\<rparr>"

definition rounded_apart_block :: Block where
  "rounded_apart_block = \<lparr>block_id = ''x'', height = 1, transactions = [tx_rounded_apart]\<rparr>"

text \<open>A first block without transactions, and one that misses the height and the conservation
  rule at once.\<close>

definition empty_block :: "(string \<Rightarrow> string) \<Rightarrow> Block" where
  "empty_block H = \<lparr>block_id = H ''1'', height = 1, transactions = []\<rparr>"

definition bad_block :: Block where
  "bad_block =
     \<lparr>block_id = ''x'', height = 7,
      transactions =
        [\<lparr>tx_id = ''tx1'', inputs = [],
          outputs = [\<lparr>out_address = ''addr1'', out_value = 10\<rparr>]\<rparr>]\<rparr>"

text \<open>A first block whose id differs from the computed one in the case of one letter only.\<close>

definition case_block :: Block where
  "case_block =
     \<lparr>block_id = ''1A'', height = 1,
      transactions = [\<lparr>tx_id = ''a'', inputs = [], outputs = []\<rparr>]\<rparr>"

text \<open>A database into which balance rows for \<^verbatim>\<open>alice\<close> and \<^verbatim>\<open>bob\<close> have been entered by hand.\<close>

definition funded :: "bool list \<Rightarrow> store" where
  "funded fs = \<lparr>blocks = [], balances = [(''alice'', 10), (''bob'', 0)], saved = None, faults = fs\<rparr>"

section \<open>Statements and loops, one at a time\<close>

lemma pop_fields [simp]:
  "blocks (pop s) = blocks s" "balances (pop s) = balances s" "saved (pop s) = saved s"
  by (simp_all add: pop_def)

lemma pool_query_cases:
  assumes "pool_query stmt s = (r, s')"
  shows "(r = Inl StoreFailure \<and> s' = pop s \<and> flagged s)
       \<or> (\<exists>e. r = Inl e \<and> stmt (pop s) = Inl e \<and> s' = pop s \<and> \<not> flagged s)
       \<or> (\<exists>a. r = Inr a \<and> stmt (pop s) = Inr (a, s') \<and> \<not> flagged s)"
  using assms
  by (auto simp: pool_query_def pop_def flagged_def Let_def
           split: list.splits bool.splits sum.splits prod.splits)

lemma pool_query_ok:
  "\<not> flagged s \<Longrightarrow> stmt (pop s) = Inr (a, t) \<Longrightarrow> pool_query stmt s = (Inr a, t)"
  by (auto simp: pool_query_def pop_def flagged_def Let_def split: list.splits bool.splits)

lemma update_balances_keeps:
  assumes "pool_query (update_balances f v a) s = (r, s')"
  shows "blocks s' = blocks s \<and> saved s' = saved s \<and> map fst (balances s') = map fst (balances s)"
  using pool_query_cases [OF assms]
  by (auto simp: update_balances_def split: option.splits if_splits)

lemma apply_inputs_keeps:
  "apply_inputs ins s = (r, s') \<Longrightarrow>
     blocks s' = blocks s \<and> saved s' = saved s \<and> map fst (balances s') = map fst (balances s)"
proof (induction ins arbitrary: s)
  case Nil
  then show ?case by simp
next
  case (Cons i ins)
  obtain r1 s1 where q: "pool_query (update_balance_minus (in_value i) (in_address i)) s = (r1, s1)"
    by (cases "pool_query (update_balance_minus (in_value i) (in_address i)) s")
  from q have k: "blocks s1 = blocks s \<and> saved s1 = saved s \<and> map fst (balances s1) = map fst (balances s)"
    unfolding update_balance_minus_def by (rule update_balances_keeps)
  show ?case
  proof (cases r1)
    case (Inl e)
    with Cons.prems q k show ?thesis by simp
  next
    case (Inr u)
    with Cons.prems q have "apply_inputs ins s1 = (r, s')" by simp
    from Cons.IH [OF this] k show ?thesis by simp
  qed
qed

lemma apply_outputs_keeps:
  "apply_outputs outs s = (r, s') \<Longrightarrow>
     blocks s' = blocks s \<and> saved s' = saved s \<and> map fst (balances s') = map fst (balances s)"
proof (induction outs arbitrary: s)
  case Nil
  then show ?case by simp
next
  case (Cons out outs)
  obtain r1 s1 where
    q: "pool_query (update_balance_plus (Some (out_value out)) (Some (out_address out))) s = (r1, s1)"
    by (cases "pool_query (update_balance_plus (Some (out_value out)) (Some (out_address out))) s")
  from q have k: "blocks s1 = blocks s \<and> saved s1 = saved s \<and> map fst (balances s1) = map fst (balances s)"
    unfolding update_balance_plus_def by (rule update_balances_keeps)
  show ?case
  proof (cases r1)
    case (Inl e)
    with Cons.prems q k show ?thesis by simp
  next
    case (Inr u)
    with Cons.prems q have "apply_outputs outs s1 = (r, s')" by simp
    from Cons.IH [OF this] k show ?thesis by simp
  qed
qed

lemma apply_transactions_keeps:
  "apply_transactions txs s = (r, s') \<Longrightarrow>
     blocks s' = blocks s \<and> saved s' = saved s \<and> map fst (balances s') = map fst (balances s)"
proof (induction txs arbitrary: s)
  case Nil
  then show ?case by simp
next
  case (Cons tx txs)
  obtain r1 s1 where q1: "apply_inputs (inputs tx) s = (r1, s1)"
    by (cases "apply_inputs (inputs tx) s")
  obtain r2 s2 where q2: "apply_outputs (outputs tx) s1 = (r2, s2)"
    by (cases "apply_outputs (outputs tx) s1")
  note k1 = apply_inputs_keeps [OF q1] and k2 = apply_outputs_keeps [OF q2]
  show ?case
  proof (cases r1)
    case (Inl e)
    with Cons.prems q1 k1 show ?thesis by simp
  next
    case r1: (Inr u)
    show ?thesis
    proof (cases r2)
      case (Inl e)
      with Cons.prems q1 q2 r1 k1 k2 show ?thesis by simp
    next
      case (Inr u2)
      with Cons.prems q1 q2 r1 have "apply_transactions txs s2 = (r, s')" by simp
      from Cons.IH [OF this] k1 k2 show ?thesis by simp
    qed
  qed
qed

lemma replay_keeps:
  "replay parse ds s = (r, s') \<Longrightarrow>
     blocks s' = blocks s \<and> saved s' = saved s \<and> map fst (balances s') = map fst (balances s)"
proof (induction ds arbitrary: s)
  case Nil
  then show ?case by simp
next
  case (Cons d ds)
  show ?case
  proof (cases "parse d")
    case None
    with Cons.prems show ?thesis by simp
  next
    case (Some block)
    obtain r1 s1 where q: "apply_transactions (transactions block) s = (r1, s1)"
      by (cases "apply_transactions (transactions block) s")
    note k = apply_transactions_keeps [OF q]
    show ?thesis
    proof (cases r1)
      case (Inl e)
      with Cons.prems Some q k show ?thesis by simp
    next
      case (Inr u)
      with Cons.prems Some q have "replay parse ds s1 = (r, s')" by simp
      from Cons.IH [OF this] k show ?thesis by simp
    qed
  qed
qed

lemma insert_block_keeps:
  assumes "pool_query (insert_block b) s = (r, s')"
  shows "balances s' = balances s \<and> saved s' = saved s"
  using pool_query_cases [OF assms]
  by (auto simp: insert_block_def split: if_splits)

lemma commit_cases:
  assumes "pool_query commit s = (r, s')"
  shows "(\<exists>e. r = Inl e \<and> s' = pop s) \<or> (r = Inr () \<and> s' = (pop s)\<lparr>saved := None\<rparr>)"
  using pool_query_cases [OF assms] by (auto simp: commit_def)

lemma begin_cases:
  assumes "pool_query begin_transaction s = (r, s')" and "saved s = None"
  shows "(\<exists>e. r = Inl e \<and> s' = pop s)
       \<or> (r = Inr () \<and> s' = (pop s)\<lparr>saved := Some (blocks s, balances s)\<rparr>)"
  using pool_query_cases [OF assms(1)] assms(2) by (auto simp: begin_transaction_def)

lemma try_apply_keeps:
  assumes "try_apply b s = (r, s')"
  shows "(\<exists>e. r = Inl e \<and> saved s' = saved s)
       \<or> (r = Inr () \<and> saved s' = None \<and> map fst (balances s') = map fst (balances s))"
proof -
  obtain r1 s1 where q1: "apply_transactions (transactions b) s = (r1, s1)"
    by (cases "apply_transactions (transactions b) s")
  obtain r2 s2 where q2: "pool_query (insert_block b) s1 = (r2, s2)"
    by (cases "pool_query (insert_block b) s1")
  obtain r3 s3 where q3: "pool_query commit s2 = (r3, s3)"
    by (cases "pool_query commit s2")
  note k1 = apply_transactions_keeps [OF q1] and k2 = insert_block_keeps [OF q2]
    and k3 = commit_cases [OF q3]
  show ?thesis
  proof (cases r1)
    case (Inl e)
    with assms q1 k1 show ?thesis by (auto simp: try_apply_def)
  next
    case r1: (Inr u1)
    show ?thesis
    proof (cases r2)
      case (Inl e)
      with assms q1 q2 r1 k1 k2 show ?thesis by (auto simp: try_apply_def)
    next
      case (Inr u2)
      with assms q1 q2 q3 r1 have "r = r3" "s' = s3" by (simp_all add: try_apply_def)
      with k1 k2 k3 show ?thesis by auto
    qed
  qed
qed

lemma catch_rollback_restores:
  assumes "catch_rollback err s = (r, s')" and "saved s = Some (bl, ba)"
  shows "(\<exists>e. r = Inl e) \<and> blocks s' = bl \<and> balances s' = ba \<and> saved s' = None"
  using assms
  by (auto simp: catch_rollback_def pool_query_rollback_def abort_def
           split: list.splits bool.splits)

lemma catch_rollback_rethrows:
  "\<not> flagged s \<Longrightarrow> fst (catch_rollback err s) = Inl err"
  by (auto simp: catch_rollback_def pool_query_rollback_def flagged_def
           split: list.splits bool.splits)

lemma try_rollback_keeps:
  assumes "try_rollback parse h s = (r, s')"
  shows "(\<exists>e. r = Inl e \<and> saved s' = saved s)
       \<or> (r = Inr () \<and> saved s' = None \<and> balances s' = [])"
proof -
  obtain r1 s1 where q1: "pool_query (delete_blocks_above h) s = (r1, s1)"
    by (cases "pool_query (delete_blocks_above h) s")
  obtain r2 s2 where q2: "pool_query truncate_balances s1 = (r2, s2)"
    by (cases "pool_query truncate_balances s1")
  obtain r3 s3 where q3: "pool_query select_data s2 = (r3, s3)"
    by (cases "pool_query select_data s2")
  have k1: "saved s1 = saved s"
    using pool_query_cases [OF q1] by (auto simp: delete_blocks_above_def)
  have k2: "saved s2 = saved s1 \<and> (\<forall>u. r2 = Inr u \<longrightarrow> balances s2 = [])"
    using pool_query_cases [OF q2] by (auto simp: truncate_balances_def)
  have k3: "saved s3 = saved s2 \<and> balances s3 = balances s2"
    using pool_query_cases [OF q3] by (auto simp: select_data_def)
  show ?thesis
  proof (cases r1)
    case (Inl e)
    with assms q1 k1 show ?thesis by (auto simp: try_rollback_def)
  next
    case r1: (Inr u1)
    show ?thesis
    proof (cases r2)
      case (Inl e)
      with assms q1 q2 r1 k1 k2 show ?thesis by (auto simp: try_rollback_def)
    next
      case r2: (Inr u2)
      show ?thesis
      proof (cases r3)
        case (Inl e)
        with assms q1 q2 q3 r1 r2 k1 k2 k3 show ?thesis by (auto simp: try_rollback_def)
      next
        case r3: (Inr rows)
        obtain r4 s4 where q4: "replay parse rows s3 = (r4, s4)"
          by (cases "replay parse rows s3")
        obtain r5 s5 where q5: "pool_query commit s4 = (r5, s5)"
          by (cases "pool_query commit s4")
        note k4 = replay_keeps [OF q4] and k5 = commit_cases [OF q5]
        show ?thesis
        proof (cases r4)
          case (Inl e)
          with assms q1 q2 q3 q4 r1 r2 r3 k1 k2 k3 k4 show ?thesis
            by (auto simp: try_rollback_def)
        next
          case (Inr u4)
          with assms q1 q2 q3 q4 q5 r1 r2 r3 have "r = r5" "s' = s5"
            by (simp_all add: try_rollback_def)
          with k1 k2 k3 k4 k5 r2 show ?thesis by auto
        qed
      qed
    qed
  qed
qed

lemma post_blocks_throws:
  assumes "post_blocks H b s = (Inl e, s')" and "saved s = None"
  shows "blocks s' = blocks s \<and> balances s' = balances s \<and> saved s' = None"
proof -
  obtain r1 s1 where q1: "pool_query select_max_height s = (r1, s1)"
    by (cases "pool_query select_max_height s")
  have k1: "s1 = pop s"
    using pool_query_cases [OF q1] by (auto simp: select_max_height_def)
  show ?thesis
  proof (cases r1)
    case (Inl e1)
    with assms q1 k1 show ?thesis by (auto simp: post_blocks_def)
  next
    case r1: (Inr m)
    obtain r2 s2 where q2: "pool_query begin_transaction s1 = (r2, s2)"
      by (cases "pool_query begin_transaction s1")
    from assms(2) k1 have "saved s1 = None" by simp
    note k2 = begin_cases [OF q2 this]
    from assms(1) q1 r1
    have valid: "height b = or_zero m + 1" "conservation (transactions b) = None"
      "block_id b = calculatedId H b"
      by (auto simp: post_blocks_def split: if_splits option.splits)
    show ?thesis
    proof (cases r2)
      case (Inl e2)
      with assms q1 q2 r1 valid k1 k2 show ?thesis by (auto simp: post_blocks_def)
    next
      case r2: (Inr u2)
      with k2 k1 have s2: "saved s2 = Some (blocks s, balances s)" by auto
      obtain r3 s3 where q3: "try_apply b s2 = (r3, s3)"
        by (cases "try_apply b s2")
      note k3 = try_apply_keeps [OF q3]
      show ?thesis
      proof (cases r3)
        case (Inl err)
        with assms(1) q1 q2 q3 r1 r2 valid have c: "catch_rollback err s3 = (Inl e, s')"
          by (simp add: post_blocks_def)
        from k3 Inl s2 have "saved s3 = Some (blocks s, balances s)" by auto
        from catch_rollback_restores [OF c this] show ?thesis by simp
      next
        case (Inr u3)
        with assms(1) q1 q2 q3 r1 r2 valid show ?thesis by (auto simp: post_blocks_def)
      qed
    qed
  qed
qed

lemma post_blocks_addresses:
  assumes "post_blocks H b s = (r, s')" and "saved s = None"
  shows "map fst (balances s') = map fst (balances s) \<and> saved s' = None"
proof (cases r)
  case (Inl e)
  with assms post_blocks_throws [of H b s e s'] show ?thesis by simp
next
  case (Inr rep)
  obtain r1 s1 where q1: "pool_query select_max_height s = (r1, s1)"
    by (cases "pool_query select_max_height s")
  have k1: "s1 = pop s"
    using pool_query_cases [OF q1] by (auto simp: select_max_height_def)
  from assms(1) q1 Inr obtain m where r1: "r1 = Inr m"
    by (cases r1) (auto simp: post_blocks_def)
  show ?thesis
  proof (cases "height b = or_zero m + 1 \<and> conservation (transactions b) = None
                \<and> block_id b = calculatedId H b")
    case False
    with assms q1 r1 k1 show ?thesis
      by (auto simp: post_blocks_def split: if_splits option.splits)
  next
    case True
    obtain r2 s2 where q2: "pool_query begin_transaction s1 = (r2, s2)"
      by (cases "pool_query begin_transaction s1")
    from assms(2) k1 have "saved s1 = None" by simp
    note k2 = begin_cases [OF q2 this]
    from assms(1) q1 q2 r1 True Inr obtain u2 where r2: "r2 = Inr u2"
      by (cases r2) (auto simp: post_blocks_def)
    obtain r3 s3 where q3: "try_apply b s2 = (r3, s3)"
      by (cases "try_apply b s2")
    note k3 = try_apply_keeps [OF q3]
    from assms(1) q1 q2 q3 r1 r2 True Inr obtain u3 where r3: "r3 = Inr u3"
      using catch_rollback_restores [of _ s3 r s']
      by (cases r3) (auto simp: post_blocks_def catch_rollback_def split: prod.splits sum.splits)
    from assms(1) q1 q2 q3 r1 r2 r3 True have "s' = s3" by (auto simp: post_blocks_def)
    with k3 r3 k2 r2 k1 show ?thesis by auto
  qed
qed

lemma post_rollback_throws:
  assumes "post_rollback parse h s = (Inl e, s')" and "saved s = None"
  shows "blocks s' = blocks s \<and> balances s' = balances s \<and> saved s' = None"
proof -
  obtain r1 s1 where q1: "pool_query begin_transaction s = (r1, s1)"
    by (cases "pool_query begin_transaction s")
  note k1 = begin_cases [OF q1 assms(2)]
  show ?thesis
  proof (cases r1)
    case (Inl e1)
    with assms q1 k1 show ?thesis by (auto simp: post_rollback_def)
  next
    case r1: (Inr u1)
    with k1 have s1: "saved s1 = Some (blocks s, balances s)" by auto
    obtain r2 s2 where q2: "try_rollback parse h s1 = (r2, s2)"
      by (cases "try_rollback parse h s1")
    note k2 = try_rollback_keeps [OF q2]
    show ?thesis
    proof (cases r2)
      case (Inl err)
      with assms(1) q1 q2 r1 have c: "catch_rollback err s2 = (Inl e, s')"
        by (simp add: post_rollback_def)
      from k2 Inl s1 have "saved s2 = Some (blocks s, balances s)" by auto
      from catch_rollback_restores [OF c this] show ?thesis by simp
    next
      case (Inr u2)
      with assms(1) q1 q2 r1 show ?thesis by (auto simp: post_rollback_def)
    qed
  qed
qed

lemma post_rollback_replies:
  assumes "post_rollback parse h s = (Inr rep, s')" and "saved s = None"
  shows "rep = Reply 200 (Status ''Rollback completed'') \<and> balances s' = [] \<and> saved s' = None"
proof -
  obtain r1 s1 where q1: "pool_query begin_transaction s = (r1, s1)"
    by (cases "pool_query begin_transaction s")
  from assms(1) q1 obtain u1 where r1: "r1 = Inr u1"
    by (cases r1) (auto simp: post_rollback_def)
  obtain r2 s2 where q2: "try_rollback parse h s1 = (r2, s2)"
    by (cases "try_rollback parse h s1")
  note k2 = try_rollback_keeps [OF q2]
  from assms(1) q1 q2 r1 obtain u2 where r2: "r2 = Inr u2"
    by (cases r2) (auto simp: post_rollback_def catch_rollback_def split: prod.splits sum.splits)
  from assms(1) q1 q2 r1 r2 have "s' = s2" "rep = Reply 200 (Status ''Rollback completed'')"
    by (auto simp: post_rollback_def)
  with k2 r2 show ?thesis by auto
qed

lemma post_rollback_addresses:
  assumes "post_rollback parse h s = (r, s')" and "saved s = None"
  shows "set (map fst (balances s')) \<subseteq> set (map fst (balances s)) \<and> saved s' = None"
proof (cases r)
  case (Inl e)
  with assms post_rollback_throws [of parse h s e s'] show ?thesis by simp
next
  case (Inr rep)
  with assms post_rollback_replies [of parse h s rep s'] show ?thesis by simp
qed

lemma get_balance_store: "snd (get_balance a s) = pop s"
proof -
  obtain r1 s1 where q1: "pool_query (select_balance a) s = (r1, s1)"
    by (cases "pool_query (select_balance a) s")
  have "s1 = pop s"
    using pool_query_cases [OF q1] by (auto simp: select_balance_def)
  with q1 show ?thesis
    by (auto simp: get_balance_def split: sum.splits list.splits)
qed

lemma get_balance_empty:
  assumes "balances s = []" and "\<not> flagged s"
  shows "fst (get_balance a s) = Inr AddressNotFound"
proof -
  have "select_balance a (pop s) = Inr ([], pop s)"
    using assms(1) by (simp add: select_balance_def)
  then have "pool_query (select_balance a) s = (Inr [], pop s)"
    using assms(2) by (rule pool_query_ok [rotated])
  then show ?thesis
    by (simp add: get_balance_def)
qed

lemma reachable_invariant:
  "reachable H parse s \<Longrightarrow> balances s = [] \<and> saved s = None"
proof (induction rule: reachable.induct)
  case (start fs)
  show ?case by (simp add: initial_def)
next
  case (submit s b fs)
  obtain r s' where q: "post_blocks H b (s\<lparr>faults := fs\<rparr>) = (r, s')"
    by (cases "post_blocks H b (s\<lparr>faults := fs\<rparr>)")
  from post_blocks_addresses [OF q] submit.IH q show ?case by simp
next
  case (query s a fs)
  then show ?case by (simp add: get_balance_store)
next
  case (rollback s h fs)
  obtain r s' where q: "post_rollback parse h (s\<lparr>faults := fs\<rparr>) = (r, s')"
    by (cases "post_rollback parse h (s\<lparr>faults := fs\<rparr>)")
  from post_rollback_addresses [OF q] rollback.IH q show ?case by simp
qed

lemma max_height_Max:
  "max_height rows = (if rows = [] then None else Some (Max (set (map row_height rows))))"
proof (cases rows)
  case Nil
  then show ?thesis by (simp add: max_height_def)
next
  case (Cons r rs)
  have "Max (set (row_height r # map row_height rs)) = fold max (map row_height rs) (row_height r)"
    by (rule Max.set_eq_fold)
  with Cons show ?thesis by (simp add: max_height_def)
qed

lemma currentHeight_Max:
  "currentHeight s = (if blocks s = [] then 0 else Max (set (map row_height (blocks s))))"
  by (simp add: currentHeight_def or_zero_def max_height_Max)

lemma select_max_height_ok:
  "\<not> flagged s \<Longrightarrow> pool_query select_max_height s = (Inr (max_height (blocks s)), pop s)"
  by (rule pool_query_ok) (simp_all add: select_max_height_def)

lemma post_blocks_height:
  "\<not> flagged s \<Longrightarrow> height b \<noteq> currentHeight s + 1 \<Longrightarrow>
     post_blocks H b s = (Inr InvalidHeight, pop s)"
  by (simp add: post_blocks_def select_max_height_ok currentHeight_def)

lemma post_blocks_conservation:
  "\<not> flagged s \<Longrightarrow> height b = currentHeight s + 1 \<Longrightarrow> conservation (transactions b) = Some r \<Longrightarrow>
     post_blocks H b s = (Inr r, pop s)"
  by (simp add: post_blocks_def select_max_height_ok currentHeight_def)

lemma post_blocks_identity:
  "\<not> flagged s \<Longrightarrow> height b = currentHeight s + 1 \<Longrightarrow> conservation (transactions b) = None \<Longrightarrow>
     block_id b \<noteq> calculatedId H b \<Longrightarrow> post_blocks H b s = (Inr InvalidBlockId, pop s)"
  by (simp add: post_blocks_def select_max_height_ok currentHeight_def)

lemma catch_rollback_throws: "fst (catch_rollback err s) \<noteq> Inr rep"
  by (auto simp: catch_rollback_def pool_query_rollback_def split: list.splits bool.splits)

lemma post_blocks_valid:
  assumes "\<not> flagged s" and "height b = currentHeight s + 1"
    and "conservation (transactions b) = None" and "block_id b = calculatedId H b"
  shows "post_blocks H b s =
     (case pool_query begin_transaction (pop s) of
        (Inl e, s2) \<Rightarrow> (Inl e, s2)
      | (Inr u, s2) \<Rightarrow>
          (case try_apply b s2 of
             (Inl err, s3) \<Rightarrow> catch_rollback err s3
           | (Inr u', s3) \<Rightarrow> (Inr (Reply 200 (Status ''Block added'')), s3)))"
  using assms by (simp add: post_blocks_def select_max_height_ok currentHeight_def)

lemma post_blocks_valid_reply:
  assumes "\<not> flagged s" and "height b = currentHeight s + 1"
    and "conservation (transactions b) = None" and "block_id b = calculatedId H b"
    and "fst (post_blocks H b s) = Inr rep"
  shows "rep = Reply 200 (Status ''Block added'')"
  using assms(5) catch_rollback_throws
  unfolding post_blocks_valid [OF assms(1-4)]
  by (auto split: prod.splits sum.splits)

lemma conservation_Some: "conservation txs = Some r \<Longrightarrow> r = UnbalancedTransaction"
  by (induction txs) (auto split: if_splits)

lemma conservation_None_iff:
  "conservation txs = None \<longleftrightarrow> (\<forall>tx\<in>set txs. \<not> js_neq (inputSum tx) (outputSum tx))"
  by (induction txs) auto

lemma conservation_first:
  "\<forall>tx\<in>set pre. \<not> js_neq (inputSum tx) (outputSum tx) \<Longrightarrow>
     conservation (pre @ txs) = conservation txs"
  by (induction pre) auto

lemma nearest_double_exact: "\<bar>n\<bar> \<le> 2 ^ 53 \<Longrightarrow> nearest_double n = Num n"
  by (simp add: nearest_double_def Let_def)

lemma js_add_exact:
  "\<bar>a\<bar> + \<bar>v\<bar> \<le> 2 ^ 53 \<Longrightarrow> js_add (Num a) (Some v) = Num (a + v)"
proof -
  assume b: "\<bar>a\<bar> + \<bar>v\<bar> \<le> 2 ^ 53"
  then have "\<bar>v\<bar> \<le> 2 ^ 53" and "\<bar>a + v\<bar> \<le> 2 ^ 53" by linarith+
  then show ?thesis by (simp add: js_add_def nearest_double_exact)
qed

lemma js_add_undefined: "js_add acc None = NaN"
  by (simp add: js_add_def)

lemma js_add_NaN: "js_add NaN v = NaN"
  by (simp add: js_add_def split: option.splits)

lemma foldl_js_add_NaN: "foldl (\<lambda>sum x. js_add sum (g x)) NaN xs = NaN"
  by (induction xs) (simp_all add: js_add_NaN)

lemma foldl_js_add_absent:
  "\<not> list_all (\<lambda>x. g x \<noteq> None) xs \<Longrightarrow> foldl (\<lambda>sum x. js_add sum (g x)) start xs = NaN"
proof (induction xs arbitrary: start)
  case Nil
  then show ?case by simp
next
  case (Cons x xs)
  show ?case
  proof (cases "g x")
    case None
    then show ?thesis by (simp add: js_add_undefined foldl_js_add_NaN)
  next
    case (Some v)
    with Cons.prems have "\<not> list_all (\<lambda>x. g x \<noteq> None) xs" by simp
    from Cons.IH [OF this] show ?thesis by simp
  qed
qed

lemma foldl_js_add_exact:
  "list_all (\<lambda>x. g x \<noteq> None) xs \<Longrightarrow>
   \<bar>a\<bar> + sum_list (map (\<lambda>x. case g x of Some v \<Rightarrow> \<bar>v\<bar> | None \<Rightarrow> 0) xs) \<le> 2 ^ 53 \<Longrightarrow>
   foldl (\<lambda>sum x. js_add sum (g x)) (Num a) xs =
     Num (a + sum_list (map (\<lambda>x. case g x of Some v \<Rightarrow> v | None \<Rightarrow> 0) xs))"
proof (induction xs arbitrary: a)
  case Nil
  show ?case by simp
next
  case (Cons x xs)
  from Cons.prems(1) obtain v where v: "g x = Some v" by auto
  let ?rest = "sum_list (map (\<lambda>x. case g x of Some v \<Rightarrow> \<bar>v\<bar> | None \<Rightarrow> 0) xs)"
  have nonneg: "0 \<le> ?rest" by (rule sum_list_nonneg) (auto split: option.splits)
  from Cons.prems(2) v have b: "\<bar>a\<bar> + \<bar>v\<bar> + ?rest \<le> 2 ^ 53" by simp
  with nonneg have "\<bar>a\<bar> + \<bar>v\<bar> \<le> 2 ^ 53" by linarith
  then have step: "js_add (Num a) (Some v) = Num (a + v)" by (rule js_add_exact)
  from b have "\<bar>a + v\<bar> + ?rest \<le> 2 ^ 53" by linarith
  with Cons.prems(1) have "foldl (\<lambda>sum x. js_add sum (g x)) (Num (a + v)) xs =
     Num (a + v + sum_list (map (\<lambda>x. case g x of Some v \<Rightarrow> v | None \<Rightarrow> 0) xs))"
    by (intro Cons.IH) simp_all
  with v step show ?case by (simp add: add.assoc)
qed

lemma inputSum_exact:
  "values_present tx \<Longrightarrow> input_magnitude tx \<le> 2 ^ 53 \<Longrightarrow> inputSum tx = Num (input_total tx)"
  using foldl_js_add_exact [of in_value "inputs tx" 0]
  by (simp add: inputSum_def values_present_def input_magnitude_def input_total_def)

lemma inputSum_absent: "\<not> values_present tx \<Longrightarrow> inputSum tx = NaN"
  by (simp add: inputSum_def values_present_def foldl_js_add_absent)

lemma outputSum_exact:
  "output_magnitude tx \<le> 2 ^ 53 \<Longrightarrow> outputSum tx = Num (output_total tx)"
  using foldl_js_add_exact [of "\<lambda>output. Some (out_value output)" "outputs tx" 0]
  by (simp add: outputSum_def output_magnitude_def output_total_def list_all_iff)

lemma js_neq_totals:
  "values_present tx \<Longrightarrow> within_safe_range tx \<Longrightarrow>
     js_neq (inputSum tx) (outputSum tx) \<longleftrightarrow> input_total tx \<noteq> output_total tx"
  by (simp add: within_safe_range_def inputSum_exact outputSum_exact js_neq_def)

lemma js_neq_absent: "\<not> values_present tx \<Longrightarrow> js_neq (inputSum tx) (outputSum tx)"
  by (simp add: inputSum_absent js_neq_def)

lemma foldl_update: "foldl (\<lambda>hash tx. update hash (tx_id tx)) h txs = h @ concat (map tx_id txs)"
  by (induction txs arbitrary: h) (simp_all add: update_def)

lemma calculatedId_concat:
  "calculatedId H b = H (toString (height b) @ concat (map tx_id (transactions b)))"
  by (simp add: calculatedId_def digest_def foldl_update) (simp add: update_def createHash_def)

lemma rejections_distinct:
  "InvalidHeight \<noteq> UnbalancedTransaction" "InvalidHeight \<noteq> InvalidBlockId"
  "UnbalancedTransaction \<noteq> InvalidBlockId"
  "InvalidHeight \<noteq> Reply 200 bd" "UnbalancedTransaction \<noteq> Reply 200 bd"
  "InvalidBlockId \<noteq> Reply 200 bd"
  by (simp_all add: InvalidHeight_def UnbalancedTransaction_def InvalidBlockId_def)

lemma post_blocks_passes:
  assumes "\<not> flagged s" and "height b = currentHeight s + 1"
  shows "fst (post_blocks H b s) \<noteq> Inr InvalidHeight"
    and "conservation (transactions b) = None \<Longrightarrow> fst (post_blocks H b s) \<noteq> Inr UnbalancedTransaction"
    and "conservation (transactions b) = None \<Longrightarrow> block_id b = calculatedId H b \<Longrightarrow>
           fst (post_blocks H b s) \<noteq> Inr InvalidBlockId"
proof -
  have valid: "fst (post_blocks H b s) \<noteq> Inr rep"
    if "conservation (transactions b) = None" "block_id b = calculatedId H b"
      "rep \<noteq> Reply 200 (Status ''Block added'')" for rep
    using post_blocks_valid_reply [OF assms that(1,2)] that(3) by blast
  show "fst (post_blocks H b s) \<noteq> Inr InvalidHeight"
  proof (cases "conservation (transactions b)")
    case (Some r)
    with post_blocks_conservation [OF assms Some] conservation_Some [OF Some]
    show ?thesis by (simp add: rejections_distinct rejections_distinct [symmetric])
  next
    case None
    show ?thesis
    proof (cases "block_id b = calculatedId H b")
      case True
      from valid [OF None True] show ?thesis by (simp add: rejections_distinct rejections_distinct [symmetric])
    next
      case False
      with post_blocks_identity [OF assms None False] show ?thesis
        by (simp add: rejections_distinct rejections_distinct [symmetric])
    qed
  qed
  show "fst (post_blocks H b s) \<noteq> Inr UnbalancedTransaction"
    if none: "conservation (transactions b) = None"
  proof (cases "block_id b = calculatedId H b")
    case True
    from valid [OF none True] show ?thesis by (simp add: rejections_distinct rejections_distinct [symmetric])
  next
    case False
    with post_blocks_identity [OF assms none False] show ?thesis
      by (simp add: rejections_distinct rejections_distinct [symmetric])
  qed
  show "fst (post_blocks H b s) \<noteq> Inr InvalidBlockId"
    if "conservation (transactions b) = None" "block_id b = calculatedId H b"
    using valid [OF that] by (simp add: rejections_distinct rejections_distinct [symmetric])
qed

lemma conservation_unbalanced:
  "tx \<in> set txs \<Longrightarrow> js_neq (inputSum tx) (outputSum tx) \<Longrightarrow>
     conservation txs = Some UnbalancedTransaction"
  using conservation_None_iff [of txs] conservation_Some [of txs]
  by (cases "conservation txs") auto

lemma begin_ok:
  assumes "\<not> flagged s" and "saved s = None"
  shows "pool_query begin_transaction s = (Inr (), (pop s)\<lparr>saved := Some (blocks s, balances s)\<rparr>)"
  by (rule pool_query_ok [OF assms(1)]) (simp add: begin_transaction_def assms(2))

lemma catch_rollback_result:
  "catch_rollback err s = (Inl (if flagged s then StoreFailure else err), abort (pop s))"
  by (auto simp: catch_rollback_def pool_query_rollback_def flagged_def pop_def
           split: list.splits bool.splits)

lemma post_blocks_caught:
  assumes "saved s = None" and "\<not> flagged s" and "height b = currentHeight s + 1"
    and "conservation (transactions b) = None" and "block_id b = calculatedId H b"
    and "\<not> flagged (pop s)" and "try_apply b (begun s) = (Inl err, s3)"
  shows "post_blocks H b s = (Inl (if flagged s3 then StoreFailure else err), abort (pop s3))"
proof -
  from assms(1) have "saved (pop s) = None" by simp
  from begin_ok [OF assms(6) this]
  have "pool_query begin_transaction (pop s) = (Inr (), begun s)" by (simp add: begun_def)
  with assms(7) show ?thesis
    by (simp add: post_blocks_valid [OF assms(2-5)] catch_rollback_result)
qed

lemma get_balance_flagged: "flagged s \<Longrightarrow> fst (get_balance a s) = Inl StoreFailure"
  by (auto simp: get_balance_def pool_query_def flagged_def split: list.splits bool.splits)

lemma post_blocks_reply:
  assumes "fst (post_blocks H b s) = Inr rep"
  shows "rep = InvalidHeight \<or> rep = UnbalancedTransaction \<or> rep = InvalidBlockId
       \<or> rep = Reply 200 (Status ''Block added'')"
proof -
  have nf: "\<not> flagged s"
  proof
    assume "flagged s"
    then have "fst (post_blocks H b s) = Inl StoreFailure"
      by (auto simp: post_blocks_def pool_query_def flagged_def split: list.splits bool.splits)
    with assms show False by simp
  qed
  show ?thesis
  proof (cases "height b = currentHeight s + 1")
    case False
    with post_blocks_height [OF nf, of b H] assms show ?thesis by simp
  next
    case h: True
    show ?thesis
    proof (cases "conservation (transactions b)")
      case (Some r)
      with post_blocks_conservation [OF nf h Some, of H] conservation_Some [OF Some] assms
      show ?thesis by simp
    next
      case None
      show ?thesis
      proof (cases "block_id b = calculatedId H b")
        case False
        with post_blocks_identity [OF nf h None False] assms show ?thesis by simp
      next
        case True
        from post_blocks_valid_reply [OF nf h None True assms] show ?thesis by simp
      qed
    qed
  qed
qed

lemma post_rollback_reply:
  assumes "fst (post_rollback parse h s) = Inr rep"
  shows "rep = Reply 200 (Status ''Rollback completed'')"
  using assms catch_rollback_throws
  by (auto simp: post_rollback_def split: prod.splits sum.splits)

lemma reachable_transfer: "reachable id Some (snd (post_blocks id (transfer_block id) (initial [])))"
proof -
  have "reachable id Some (initial [])" by (rule reachable.start)
  then have "reachable id Some (snd (post_blocks id (transfer_block id) ((initial [])\<lparr>faults := []\<rparr>)))"
    by (rule reachable.submit)
  then show ?thesis by (simp add: initial_def)
qed

lemmas handler_defs =
  post_blocks_def post_rollback_def get_balance_def try_apply_def try_rollback_def
  catch_rollback_def pool_query_def pool_query_rollback_def abort_def
  select_max_height_def max_height_def or_zero_def begin_transaction_def commit_def
  update_balance_minus_def update_balance_plus_def update_balances_def insert_block_def
  select_balance_def delete_blocks_above_def truncate_balances_def select_data_def
  inputSum_def outputSum_def js_add_exact js_neq_def calculatedId_def digest_def update_def
  createHash_def toString_def digits.simps digit_def initial_def

lemma transfer_accepted:
  "post_blocks H (transfer_block H) (initial []) =
     (Inr (Reply 200 (Status ''Block added'')),
      \<lparr>blocks = [\<lparr>row_id = H ''1t1'', row_height = 1, row_data = transfer_block H\<rparr>],
       balances = [], saved = None, faults = []\<rparr>)"
  by (simp add: handler_defs transfer_block_def tx_balanced_def)

text \<open>An input as the type \<^verbatim>\<open>Input\<close> declares it, without a value, makes its transaction fail the
  conservation check: the sum is \<^verbatim>\<open>NaN\<close>.\<close>

lemma conservation_undefined_value:
  "tx \<in> set txs \<Longrightarrow> \<not> values_present tx \<Longrightarrow> conservation txs = Some UnbalancedTransaction"
  using conservation_unbalanced [of tx txs] by (simp add: js_neq_absent)



section \<open>The claims\<close>

text \<open>
  C1 (the scenario of the specification), evaluated on the code. On the fresh database the
  block of the scenario is answered \<open>UnbalancedTransaction\<close>, since its one transaction
  has no input and an output of 10, and the store is left as it was; the balance of
  \<^verbatim>\<open>addr1\<close> is \<open>AddressNotFound\<close> then, and again after a rollback to height 0, which
  succeeds. The scenario, like the tests \<^verbatim>\<open>POST /blocks\<close> and \<^verbatim>\<open>GET /balance/:address\<close> of
  \<^verbatim>\<open>spec/index.spec.ts\<close>, has the block accepted and a balance of 10 in between.
\<close>

theorem scenario_outcome:
  "fst (post_blocks H (scenario_block H) (initial [])) = Inr UnbalancedTransaction
   \<and> snd (post_blocks H (scenario_block H) (initial [])) = initial []
   \<and> fst (get_balance ''addr1'' (initial [])) = Inr AddressNotFound
   \<and> fst (post_rollback parse 0 (initial [])) = Inr (Reply 200 (Status ''Rollback completed''))
   \<and> fst (get_balance ''addr1'' (snd (post_rollback parse 0 (initial [])))) = Inr AddressNotFound"
  by (simp add: handler_defs scenario_block_def)

text \<open>
  C2 (rollback correctness), evaluated on the code. The transfer block is accepted on the
  fresh database and makes a chain of one block; folding its deltas over the all-zero
  mapping gives 5 for \<^verbatim>\<open>bob\<close> and -5 for \<^verbatim>\<open>alice\<close>. After a rollback to height 1, whatever
  \<^verbatim>\<open>JSON.parse\<close> returns, neither address has a balance: both queries are answered
  \<open>AddressNotFound\<close>.
\<close>

theorem transfer_rollback_outcome:
  "fst (post_blocks H (transfer_block H) (initial [])) = Inr (Reply 200 (Status ''Block added''))
   \<and> map row_data (blocks (snd (post_blocks H (transfer_block H) (initial [])))) = [transfer_block H]
   \<and> fold_deltas [transfer_block H] ''bob'' = 5
   \<and> fold_deltas [transfer_block H] ''alice'' = - 5
   \<and> fst (post_rollback Some 1 (snd (post_blocks H (transfer_block H) (initial [])))) =
        Inr (Reply 200 (Status ''Rollback completed''))
   \<and> fst (get_balance ''bob''
        ((snd (post_rollback parse 1 (snd (post_blocks H (transfer_block H) (initial [])))))\<lparr>faults := []\<rparr>)) =
        Inr AddressNotFound
   \<and> fst (get_balance ''alice''
        ((snd (post_rollback parse 1 (snd (post_blocks H (transfer_block H) (initial [])))))\<lparr>faults := []\<rparr>)) =
        Inr AddressNotFound"
proof -
  let ?s1 = "snd (post_blocks H (transfer_block H) (initial []))"
  let ?s2 = "snd (post_rollback parse 1 ?s1)"
  have fold: "fold_deltas [transfer_block H] ''bob'' = 5" "fold_deltas [transfer_block H] ''alice'' = - 5"
    by (simp_all add: fold_deltas_def fold_transaction_def debit_def credit_def
          transfer_block_def tx_balanced_def)
  have rb: "fst (post_rollback Some 1 ?s1) = Inr (Reply 200 (Status ''Rollback completed''))"
    unfolding transfer_accepted
    by (simp add: handler_defs) (simp add: transfer_block_def tx_balanced_def handler_defs)
  have "saved ?s1 = None" by (simp add: transfer_accepted)
  moreover have "post_rollback parse 1 ?s1 = (fst (post_rollback parse 1 ?s1), ?s2)" by simp
  ultimately have "set (map fst (balances ?s2)) \<subseteq> set (map fst (balances ?s1))"
    using post_rollback_addresses by blast
  then have e: "balances (?s2\<lparr>faults := []\<rparr>) = []" by (simp add: transfer_accepted)
  have nf: "\<not> flagged (?s2\<lparr>faults := []\<rparr>)" by (simp add: flagged_def)
  from get_balance_empty [OF e nf] fold rb show ?thesis by (simp add: transfer_accepted)
qed

text \<open>
  C3 (height check). \<open>currentHeight\<close> is the greatest height in the chain, and 0 on an empty
  chain. When the store answers the query for it, a block whose height is not
  \<open>currentHeight + 1\<close> is answered \<open>InvalidHeight\<close> and neither table changes; a block whose
  height is \<open>currentHeight + 1\<close> is never answered \<open>InvalidHeight\<close>.
\<close>

theorem height_check:
  assumes "\<not> flagged s"
  shows "currentHeight s = (if blocks s = [] then 0 else Max (set (map row_height (blocks s))))
       \<and> (height b \<noteq> currentHeight s + 1 \<longrightarrow>
            fst (post_blocks H b s) = Inr InvalidHeight
            \<and> blocks (snd (post_blocks H b s)) = blocks s
            \<and> balances (snd (post_blocks H b s)) = balances s)
       \<and> (height b = currentHeight s + 1 \<longrightarrow> fst (post_blocks H b s) \<noteq> Inr InvalidHeight)"
  using post_blocks_height [OF assms, of b H] post_blocks_passes(1) [OF assms, of b H]
  by (simp add: currentHeight_Max)

text \<open>On the fresh database: a block of height 7 is refused, a block of height 1 passes the check.\<close>

theorem height_check_witness:
  "\<not> flagged (initial [])
   \<and> height bad_block \<noteq> currentHeight (initial []) + 1
   \<and> fst (post_blocks id bad_block (initial [])) = Inr InvalidHeight
   \<and> blocks (snd (post_blocks id bad_block (initial []))) = []
   \<and> balances (snd (post_blocks id bad_block (initial []))) = []
   \<and> height (empty_block id) = currentHeight (initial []) + 1
   \<and> fst (post_blocks id (empty_block id) (initial [])) \<noteq> Inr InvalidHeight"
  using height_check [of "initial []" bad_block id] height_check [of "initial []" "empty_block id" id]
  by (simp add: flagged_def initial_def bad_block_def empty_block_def)

text \<open>
  C4 (validation order). The checks run as height, conservation, identity, and the first
  one that fails decides the reply alone: a wrong height is \<open>InvalidHeight\<close> whatever the
  sums and the id are, a right height with a transaction of unequal sums is
  \<open>UnbalancedTransaction\<close> whatever the id is, and only then a wrong id is
  \<open>InvalidBlockId\<close>. A block answered with one of the three rejections has sent the store
  nothing but the height query: no table changes and no transaction is opened.
\<close>

theorem validation_order:
  assumes "\<not> flagged s"
  shows "(height b \<noteq> currentHeight s + 1 \<longrightarrow> fst (post_blocks H b s) = Inr InvalidHeight)
       \<and> (height b = currentHeight s + 1
            \<and> (\<exists>tx\<in>set (transactions b). js_neq (inputSum tx) (outputSum tx)) \<longrightarrow>
            fst (post_blocks H b s) = Inr UnbalancedTransaction)
       \<and> (height b = currentHeight s + 1
            \<and> (\<forall>tx\<in>set (transactions b). \<not> js_neq (inputSum tx) (outputSum tx))
            \<and> block_id b \<noteq> calculatedId H b \<longrightarrow>
            fst (post_blocks H b s) = Inr InvalidBlockId)
       \<and> (fst (post_blocks H b s) \<in> {Inr InvalidHeight, Inr UnbalancedTransaction, Inr InvalidBlockId} \<longrightarrow>
            snd (post_blocks H b s) = s\<lparr>faults := tl (faults s)\<rparr>)"
proof (cases "height b = currentHeight s + 1")
  case False
  with post_blocks_height [OF assms, of b H] show ?thesis by (simp add: pop_def)
next
  case h: True
  show ?thesis
  proof (cases "conservation (transactions b)")
    case (Some r)
    then have "\<exists>tx\<in>set (transactions b). js_neq (inputSum tx) (outputSum tx)"
      using conservation_None_iff [of "transactions b"] by auto
    with post_blocks_conservation [OF assms h Some] conservation_Some [OF Some] h
    show ?thesis by (auto simp: pop_def)
  next
    case None
    then have all: "\<forall>tx\<in>set (transactions b). \<not> js_neq (inputSum tx) (outputSum tx)"
      by (simp add: conservation_None_iff)
    show ?thesis
    proof (cases "block_id b = calculatedId H b")
      case False
      with post_blocks_identity [OF assms h None False] h all show ?thesis
        by (auto simp: pop_def)
    next
      case True
      with post_blocks_passes [OF assms h, of H] None h all show ?thesis by auto
    qed
  qed
qed

text \<open>On the fresh database: a block that misses the height, the sums and the id is reported
  as \<open>InvalidHeight\<close>; the scenario block, of height 1, as \<open>UnbalancedTransaction\<close>.\<close>

theorem validation_order_witness:
  "\<not> flagged (initial [])
   \<and> height bad_block \<noteq> currentHeight (initial []) + 1
   \<and> (\<exists>tx\<in>set (transactions bad_block). js_neq (inputSum tx) (outputSum tx))
   \<and> block_id bad_block \<noteq> calculatedId id bad_block
   \<and> fst (post_blocks id bad_block (initial [])) = Inr InvalidHeight
   \<and> snd (post_blocks id bad_block (initial [])) = initial []
   \<and> fst (post_blocks id (scenario_block id) (initial [])) = Inr UnbalancedTransaction
   \<and> fst (post_blocks id case_block (initial [])) = Inr InvalidBlockId"
  using validation_order [of "initial []" bad_block id]
    validation_order [of "initial []" "scenario_block id" id]
    validation_order [of "initial []" case_block id]
  by (simp add: flagged_def initial_def bad_block_def scenario_block_def case_block_def
        currentHeight_Max inputSum_def outputSum_def js_add_exact js_neq_def calculatedId_concat toString_def
        digits.simps digit_def)

text \<open>
  C5 (conservation check), within the safe range. For a block that passes the height
  check: a transaction whose inputs carry their values, whose sums stay within the safe
  range and whose input values do not add up to exactly the sum of its output values has
  the block answered \<open>UnbalancedTransaction\<close>, with both tables unchanged, whatever the other
  transactions are; the loop decides at the first such transaction, those behind it play no
  part; and a block in which every transaction is within the safe range and has equal sums
  is not answered \<open>UnbalancedTransaction\<close>.
\<close>

theorem conservation_check:
  assumes "\<not> flagged s" and "height b = currentHeight s + 1"
  shows "(tx \<in> set (transactions b) \<and> values_present tx \<and> within_safe_range tx
            \<and> input_total tx \<noteq> output_total tx \<longrightarrow>
            fst (post_blocks H b s) = Inr UnbalancedTransaction
            \<and> blocks (snd (post_blocks H b s)) = blocks s
            \<and> balances (snd (post_blocks H b s)) = balances s)
       \<and> (transactions b = pre @ tx # post
            \<and> (\<forall>t\<in>set pre. values_present t \<and> within_safe_range t \<and> input_total t = output_total t)
            \<and> values_present tx \<and> within_safe_range tx \<and> input_total tx \<noteq> output_total tx \<longrightarrow>
            conservation (transactions b) = conservation [tx])
       \<and> ((\<forall>t\<in>set (transactions b).
              values_present t \<and> within_safe_range t \<and> input_total t = output_total t) \<longrightarrow>
            fst (post_blocks H b s) \<noteq> Inr UnbalancedTransaction)"
proof (intro conjI impI)
  assume a: "tx \<in> set (transactions b) \<and> values_present tx \<and> within_safe_range tx
    \<and> input_total tx \<noteq> output_total tx"
  then have "js_neq (inputSum tx) (outputSum tx)" by (simp add: js_neq_totals)
  with a have "conservation (transactions b) = Some UnbalancedTransaction"
    using conservation_unbalanced [of tx "transactions b"] by simp
  from post_blocks_conservation [OF assms this]
  have r: "post_blocks H b s = (Inr UnbalancedTransaction, pop s)" .
  from r show "fst (post_blocks H b s) = Inr UnbalancedTransaction" by simp
  from r show "blocks (snd (post_blocks H b s)) = blocks s" by simp
  from r show "balances (snd (post_blocks H b s)) = balances s" by simp
next
  assume a: "transactions b = pre @ tx # post
    \<and> (\<forall>t\<in>set pre. values_present t \<and> within_safe_range t \<and> input_total t = output_total t)
    \<and> values_present tx \<and> within_safe_range tx \<and> input_total tx \<noteq> output_total tx"
  then have "\<forall>t\<in>set pre. \<not> js_neq (inputSum t) (outputSum t)"
    by (simp add: js_neq_totals)
  then have "conservation (pre @ tx # post) = conservation (tx # post)"
    by (rule conservation_first)
  moreover from a have "js_neq (inputSum tx) (outputSum tx)" by (simp add: js_neq_totals)
  ultimately show "conservation (transactions b) = conservation [tx]"
    using a by simp
next
  assume "\<forall>t\<in>set (transactions b).
    values_present t \<and> within_safe_range t \<and> input_total t = output_total t"
  then have "conservation (transactions b) = None"
    by (simp add: conservation_None_iff js_neq_totals)
  from post_blocks_passes(2) [OF assms this]
  show "fst (post_blocks H b s) \<noteq> Inr UnbalancedTransaction" .
qed

text \<open>A block of three transactions, the second taking 3 and giving 4, is refused; the block
  with the balanced transfer alone passes the check.\<close>

theorem conservation_check_witness:
  "\<not> flagged (initial []) \<and> height mixed_block = currentHeight (initial []) + 1
   \<and> transactions mixed_block = [tx_balanced] @ tx_unbalanced # [tx_declared]
   \<and> values_present tx_balanced \<and> within_safe_range tx_balanced
   \<and> input_total tx_balanced = output_total tx_balanced
   \<and> values_present tx_unbalanced \<and> within_safe_range tx_unbalanced
   \<and> input_total tx_unbalanced = 3 \<and> output_total tx_unbalanced = 4
   \<and> fst (post_blocks id mixed_block (initial [])) = Inr UnbalancedTransaction
   \<and> blocks (snd (post_blocks id mixed_block (initial []))) = []
   \<and> balances (snd (post_blocks id mixed_block (initial []))) = []
   \<and> conservation (transactions mixed_block) = conservation [tx_unbalanced]
   \<and> transactions (transfer_block id) = [tx_balanced]
   \<and> fst (post_blocks id (transfer_block id) (initial [])) \<noteq> Inr UnbalancedTransaction"
  using conservation_check [of "initial []" mixed_block tx_unbalanced id "[tx_balanced]" "[tx_declared]"]
    conservation_check [of "initial []" "transfer_block id" tx_balanced id]
  by (simp add: flagged_def initial_def mixed_block_def transfer_block_def currentHeight_Max
        tx_balanced_def tx_unbalanced_def values_present_def input_total_def output_total_def
        within_safe_range_def input_magnitude_def output_magnitude_def)

text \<open>
  C5 as the specification words it, for every block, fails beyond the safe range. The sum
  of \<open>2^53\<close> and 1 is rounded to \<open>2^53\<close>: a transaction that takes \<open>2^53 + 1\<close> and gives
  \<open>2^53\<close> passes the conservation check, and its block is answered \<open>InvalidBlockId\<close> for its
  wrong id; a transaction that takes \<open>2^53\<close>, 1 and 1 and gives \<open>2^53 + 2\<close>, the same total,
  is answered \<open>UnbalancedTransaction\<close>.
\<close>

theorem conservation_check_counterexample:
  "height rounded_equal_block = currentHeight (initial []) + 1
   \<and> transactions rounded_equal_block = [tx_rounded_equal]
   \<and> values_present tx_rounded_equal
   \<and> input_total tx_rounded_equal = 9007199254740993
   \<and> output_total tx_rounded_equal = 9007199254740992
   \<and> fst (post_blocks id rounded_equal_block (initial [])) = Inr InvalidBlockId
   \<and> InvalidBlockId \<noteq> UnbalancedTransaction
   \<and> height rounded_apart_block = currentHeight (initial []) + 1
   \<and> transactions rounded_apart_block = [tx_rounded_apart]
   \<and> values_present tx_rounded_apart
   \<and> input_total tx_rounded_apart = 9007199254740994
   \<and> output_total tx_rounded_apart = 9007199254740994
   \<and> fst (post_blocks id rounded_apart_block (initial [])) = Inr UnbalancedTransaction"
  by code_simp

text \<open>
  C6 (identity check). The computed id is one digest, taken over the decimal string of
  the height followed by the transaction ids in block order. For a block that passed the
  height and the conservation check, an id that is not this very string is answered
  \<open>InvalidBlockId\<close>, with both tables unchanged, and an id that is this string is not.
\<close>

theorem identity_check:
  "calculatedId H b = H (toString (height b) @ concat (map tx_id (transactions b)))
   \<and> (\<not> flagged s \<and> height b = currentHeight s + 1 \<and> conservation (transactions b) = None \<longrightarrow>
        (block_id b \<noteq> H (toString (height b) @ concat (map tx_id (transactions b))) \<longrightarrow>
           fst (post_blocks H b s) = Inr InvalidBlockId
           \<and> blocks (snd (post_blocks H b s)) = blocks s
           \<and> balances (snd (post_blocks H b s)) = balances s)
        \<and> (block_id b = H (toString (height b) @ concat (map tx_id (transactions b))) \<longrightarrow>
           fst (post_blocks H b s) \<noteq> Inr InvalidBlockId))"
  using post_blocks_identity [of s b H] post_blocks_passes(3) [of s b H]
  by (simp add: calculatedId_concat)

text \<open>With the identity for the digest: the id \<^verbatim>\<open>1A\<close> is refused where \<^verbatim>\<open>1a\<close> is computed.\<close>

theorem identity_check_witness:
  "calculatedId id case_block = ''1a''
   \<and> \<not> flagged (initial []) \<and> height case_block = currentHeight (initial []) + 1
   \<and> conservation (transactions case_block) = None
   \<and> block_id case_block = ''1A''
   \<and> fst (post_blocks id case_block (initial [])) = Inr InvalidBlockId
   \<and> blocks (snd (post_blocks id case_block (initial []))) = []
   \<and> block_id (empty_block id) = id (toString (height (empty_block id)) @ concat (map tx_id (transactions (empty_block id))))
   \<and> fst (post_blocks id (empty_block id) (initial [])) \<noteq> Inr InvalidBlockId"
  using identity_check [of id case_block "initial []"] identity_check [of id "empty_block id" "initial []"]
  by (simp add: flagged_def initial_def case_block_def empty_block_def currentHeight_Max
        inputSum_def outputSum_def js_neq_def toString_def digits.simps digit_def)

text \<open>
  C7 (apply atomicity). On a connection with no transaction open: whenever
  \<^verbatim>\<open>POST /blocks\<close> throws, both tables are what they were before the request. In
  particular, when a validated block fails inside the \<^verbatim>\<open>try\<close> (in a delta, in the
  \<^verbatim>\<open>INSERT\<close> or in the \<^verbatim>\<open>COMMIT\<close>), the handler throws that very error (the error of the
  \<^verbatim>\<open>ROLLBACK\<close> if that fails as well), both tables are restored, and the only statement
  sent after the failure is the \<^verbatim>\<open>ROLLBACK\<close>: nothing is tried again.
\<close>

theorem apply_atomicity:
  assumes "saved s = None"
  shows "(fst (post_blocks H b s) = Inl e \<longrightarrow>
            blocks (snd (post_blocks H b s)) = blocks s
            \<and> balances (snd (post_blocks H b s)) = balances s)
       \<and> (\<not> flagged s \<and> height b = currentHeight s + 1 \<and> conservation (transactions b) = None
            \<and> block_id b = calculatedId H b \<and> \<not> flagged (pop s)
            \<and> try_apply b (begun s) = (Inl err, s3) \<longrightarrow>
            fst (post_blocks H b s) = Inl (if flagged s3 then StoreFailure else err)
            \<and> blocks (snd (post_blocks H b s)) = blocks s
            \<and> balances (snd (post_blocks H b s)) = balances s
            \<and> faults (snd (post_blocks H b s)) = tl (faults s3))"
proof (intro conjI impI)
  assume t: "fst (post_blocks H b s) = Inl e"
  then have "post_blocks H b s = (Inl e, snd (post_blocks H b s))"
    by (simp add: prod_eq_iff)
  from post_blocks_throws [OF this assms]
  show "blocks (snd (post_blocks H b s)) = blocks s"
    and "balances (snd (post_blocks H b s)) = balances s" by simp_all
next
  assume a: "\<not> flagged s \<and> height b = currentHeight s + 1 \<and> conservation (transactions b) = None
    \<and> block_id b = calculatedId H b \<and> \<not> flagged (pop s) \<and> try_apply b (begun s) = (Inl err, s3)"
  then have r: "post_blocks H b s = (Inl (if flagged s3 then StoreFailure else err), abort (pop s3))"
    using post_blocks_caught [OF assms, of b H err s3] by simp
  from r show "fst (post_blocks H b s) = Inl (if flagged s3 then StoreFailure else err)" by simp
  from r post_blocks_throws [OF r assms]
  show "blocks (snd (post_blocks H b s)) = blocks s"
    and "balances (snd (post_blocks H b s)) = balances s" by simp_all
  from r show "faults (snd (post_blocks H b s)) = tl (faults s3)"
    by (simp add: abort_def pop_def split: option.splits prod.splits)
qed

text \<open>The store fails at the second delta of the transfer: the debit of \<^verbatim>\<open>alice\<close> was
  written inside the transaction, and is gone after the request.\<close>

theorem apply_atomicity_witness:
  "saved (funded [False, False, False, True]) = None
   \<and> \<not> flagged (funded [False, False, False, True])
   \<and> height (transfer_block id) = currentHeight (funded [False, False, False, True]) + 1
   \<and> conservation (transactions (transfer_block id)) = None
   \<and> block_id (transfer_block id) = calculatedId id (transfer_block id)
   \<and> \<not> flagged (pop (funded [False, False, False, True]))
   \<and> try_apply (transfer_block id) (begun (funded [False, False, False, True])) =
       (Inl StoreFailure,
        \<lparr>blocks = [], balances = [(''alice'', 5), (''bob'', 0)],
         saved = Some ([], [(''alice'', 10), (''bob'', 0)]), faults = []\<rparr>)
   \<and> fst (post_blocks id (transfer_block id) (funded [False, False, False, True])) = Inl StoreFailure
   \<and> blocks (snd (post_blocks id (transfer_block id) (funded [False, False, False, True]))) = []
   \<and> balances (snd (post_blocks id (transfer_block id) (funded [False, False, False, True]))) =
       [(''alice'', 10), (''bob'', 0)]"
proof -
  let ?s = "funded [False, False, False, True]"
  let ?s3 = "\<lparr>blocks = [], balances = [(''alice'', 5), (''bob'', 0)],
         saved = Some ([], [(''alice'', 10), (''bob'', 0)]), faults = []\<rparr>"
  have h1: "saved ?s = None" by (simp add: funded_def)
  have h2: "\<not> flagged ?s" by (simp add: funded_def flagged_def)
  have h3: "height (transfer_block id) = currentHeight ?s + 1"
    by (simp add: funded_def transfer_block_def currentHeight_Max)
  have h4: "conservation (transactions (transfer_block id)) = None" by code_simp
  have h5: "block_id (transfer_block id) = calculatedId id (transfer_block id)" by code_simp
  have h6: "\<not> flagged (pop ?s)" by (simp add: funded_def flagged_def pop_def)
  have h7: "try_apply (transfer_block id) (begun ?s) = (Inl StoreFailure, ?s3)" by code_simp
  have h8: "\<not> flagged ?s3" by (simp add: flagged_def)
  from apply_atomicity [OF h1, of id "transfer_block id" StoreFailure StoreFailure ?s3]
    h1 h2 h3 h4 h5 h6 h7 h8
  show ?thesis by (simp add: funded_def)
qed


text \<open>
  C9 (success replies), with the bodies the code sends. A reply of \<^verbatim>\<open>POST /blocks\<close> with status code 200
  has the body \<^verbatim>\<open>{status: 'Block added'}\<close>, and a reply of \<^verbatim>\<open>POST /rollback\<close> with status
  code 200 has the body \<^verbatim>\<open>{status: 'Rollback completed'}\<close>.
\<close>

theorem success_replies:
  "(fst (post_blocks H b s) = Inr (Reply 200 bd) \<longrightarrow> bd = Status ''Block added'')
   \<and> (fst (post_rollback parse h t) = Inr (Reply 200 bd') \<longrightarrow> bd' = Status ''Rollback completed'')"
  using post_blocks_reply [of H b s "Reply 200 bd"] post_rollback_reply [of parse h t "Reply 200 bd'"]
  by (auto simp: InvalidHeight_def UnbalancedTransaction_def InvalidBlockId_def)

text \<open>The block without transactions is accepted on the fresh database, and a rollback to
  height 0 behind it succeeds.\<close>

theorem success_replies_witness:
  "fst (post_blocks id (empty_block id) (initial [])) = Inr (Reply 200 (Status ''Block added''))
   \<and> fst (post_rollback Some 0 (snd (post_blocks id (empty_block id) (initial [])))) =
       Inr (Reply 200 (Status ''Rollback completed''))"
proof -
  have c: "fst (post_blocks id (empty_block id) (initial [])) = Inr (Reply 200 (Status ''Block added''))"
    by code_simp
  have d: "fst (post_rollback Some 0 (snd (post_blocks id (empty_block id) (initial [])))) =
      Inr (Reply 200 (Status ''Rollback completed''))"
    by code_simp
  from success_replies [of id "empty_block id" "initial []" "Status ''Block added''" Some 0
         "snd (post_blocks id (empty_block id) (initial []))" "Status ''Rollback completed''"] c d
  show ?thesis by simp
qed

text \<open>C9 as the specification words it fails there: the two bodies are neither
  \<^verbatim>\<open>{status: 'accepted'}\<close> nor \<^verbatim>\<open>{status: 'rolled back'}\<close>.\<close>

theorem success_replies_counterexample:
  "fst (post_blocks id (empty_block id) (initial [])) = Inr (Reply 200 (Status ''Block added''))
   \<and> Status ''Block added'' \<noteq> Status ''accepted''
   \<and> fst (post_rollback Some 0 (initial [])) = Inr (Reply 200 (Status ''Rollback completed''))
   \<and> Status ''Rollback completed'' \<noteq> Status ''rolled back''"
  by code_simp

text \<open>
  C10 (no balance row is ever inserted). On a connection with no transaction open,
  neither \<^verbatim>\<open>POST /blocks\<close> nor \<^verbatim>\<open>POST /rollback\<close> leaves an address in the \<^verbatim>\<open>balances\<close>
  table that was not there before. So in every state reached from the fresh database
  the table is empty, and \<^verbatim>\<open>GET /balance/:address\<close> answers \<open>AddressNotFound\<close> for every
  address whenever the store answers its query.
\<close>

theorem balances_never_inserted:
  "(saved t = None \<longrightarrow>
      set (map fst (balances (snd (post_blocks H b t)))) \<subseteq> set (map fst (balances t))
      \<and> set (map fst (balances (snd (post_rollback parse h t)))) \<subseteq> set (map fst (balances t)))
   \<and> (reachable H parse s \<longrightarrow>
        balances s = []
        \<and> fst (get_balance a s) = (if flagged s then Inl StoreFailure else Inr AddressNotFound))"
proof (intro conjI impI)
  assume t: "saved t = None"
  have "post_blocks H b t = (fst (post_blocks H b t), snd (post_blocks H b t))" by simp
  from post_blocks_addresses [OF this t]
  show "set (map fst (balances (snd (post_blocks H b t)))) \<subseteq> set (map fst (balances t))" by simp
  have "post_rollback parse h t = (fst (post_rollback parse h t), snd (post_rollback parse h t))"
    by simp
  from post_rollback_addresses [OF this t]
  show "set (map fst (balances (snd (post_rollback parse h t)))) \<subseteq> set (map fst (balances t))"
    by simp
next
  assume r: "reachable H parse s"
  from reachable_invariant [OF r] show e: "balances s = []" by simp
  show "fst (get_balance a s) = (if flagged s then Inl StoreFailure else Inr AddressNotFound)"
    using get_balance_flagged [of s a] get_balance_empty [OF e, of a] by simp
qed

text \<open>The transfer block is accepted on the fresh database, and \<^verbatim>\<open>bob\<close>, who was credited 5,
  is not found; on the database with the two rows entered by hand, no third row appears.\<close>

theorem balances_never_inserted_witness:
  "saved (funded []) = None
   \<and> set (map fst (balances (snd (post_blocks id (transfer_block id) (funded []))))) \<subseteq> {''alice'', ''bob''}
   \<and> set (map fst (balances (snd (post_rollback Some 0 (funded []))))) \<subseteq> {''alice'', ''bob''}
   \<and> reachable id Some (snd (post_blocks id (transfer_block id) (initial [])))
   \<and> fst (post_blocks id (transfer_block id) (initial [])) = Inr (Reply 200 (Status ''Block added''))
   \<and> balances (snd (post_blocks id (transfer_block id) (initial []))) = []
   \<and> fst (get_balance ''bob'' (snd (post_blocks id (transfer_block id) (initial [])))) = Inr AddressNotFound"
proof -
  let ?s = "snd (post_blocks id (transfer_block id) (initial []))"
  have nf: "\<not> flagged ?s" by code_simp
  have ok: "fst (post_blocks id (transfer_block id) (initial [])) = Inr (Reply 200 (Status ''Block added''))"
    by code_simp
  have sv: "saved (funded []) = None" by (simp add: funded_def)
  have ba: "set (map fst (balances (funded []))) = {''alice'', ''bob''}" by (auto simp: funded_def)
  from balances_never_inserted [of "funded []" id "transfer_block id" Some 0 ?s "''bob''"]
    reachable_transfer nf ok sv ba
  show ?thesis by simp
qed

end
